theory Spec2Isabelle
  imports Complex_Main
begin

section \<open>Python values used by app_health_checker.py\<close>

text \<open>
  Text is a list of 8-bit characters; \<open>lower\<close> and \<open>upper\<close> are Python's \<open>str.lower\<close> and
  \<open>str.upper\<close> on ASCII letters and leave every other character alone. Python floats
  (timeouts, delays, elapsed milliseconds, the success rate) are exact rationals here:
  rounding errors of the float arithmetic are not part of the model. Python's unbounded
  integers are \<open>int\<close>.
\<close>

definition ascii_uppercase :: string where
  "ascii_uppercase = ''ABCDEFGHIJKLMNOPQRSTUVWXYZ''"

definition ascii_lowercase :: string where
  "ascii_lowercase = ''abcdefghijklmnopqrstuvwxyz''"

definition lower_char :: "char \<Rightarrow> char" where
  "lower_char c =
     (case map_of (zip ascii_uppercase ascii_lowercase) c of None \<Rightarrow> c | Some d \<Rightarrow> d)"

definition upper_char :: "char \<Rightarrow> char" where
  "upper_char c =
     (case map_of (zip ascii_lowercase ascii_uppercase) c of None \<Rightarrow> c | Some d \<Rightarrow> d)"

definition lower :: "string \<Rightarrow> string" where
  "lower s = map lower_char s"

definition upper :: "string \<Rightarrow> string" where
  "upper s = map upper_char s"

text \<open>\<open>starts_with k s\<close>: the text \<open>s\<close> begins with \<open>k\<close>.\<close>

fun starts_with :: "string \<Rightarrow> string \<Rightarrow> bool" where
  "starts_with [] s = True"
| "starts_with (k # ks) [] = False"
| "starts_with (k # ks) (c # cs) = (k = c \<and> starts_with ks cs)"

text \<open>\<open>str_contains k s\<close> is Python's \<open>k in s\<close> on two strings.\<close>

fun str_contains :: "string \<Rightarrow> string \<Rightarrow> bool" where
  "str_contains k [] = (k = [])"
| "str_contains k (c # cs) = (starts_with k (c # cs) \<or> str_contains k cs)"

text \<open>\<open>any(keyword in content for keyword in keywords)\<close>\<close>

definition any_keyword_in :: "string list \<Rightarrow> string \<Rightarrow> bool" where
  "any_keyword_in keywords content = list_ex (\<lambda>keyword. str_contains keyword content) keywords"

text \<open>\<open>range(n)\<close>: empty when \<open>n \<le> 0\<close>.\<close>

definition py_range :: "int \<Rightarrow> nat list" where
  "py_range n = [0 ..< nat n]"

datatype py_error = ZeroDivisionError | OSError

section \<open>Data model\<close>

datatype status = UP | DOWN

record content_analysis =
  has_critical_keywords :: bool
  has_success_keywords :: bool

text \<open>
  One entry of \<open>self.results\<close>. A key the dictionary does not have, or has with the value
  \<open>None\<close>, is \<open>None\<close> here: the response branch builds no \<open>error\<close> key, the exception branch
  builds no \<open>content_analysis\<close> key and sets \<open>status_code\<close> and \<open>response_time_ms\<close> to \<open>None\<close>.
\<close>

record check_result =
  name :: string
  url :: string
  status :: status
  status_code :: "int option"
  response_time_ms :: "rat option"
  timestamp :: string
  content_analysis :: "content_analysis option"
  error :: "string option"

text \<open>The configuration dictionary of \<open>load_config\<close>.\<close>

record config =
  timeout :: rat
  retry_attempts :: int
  retry_delay :: rat
  expected_status_codes :: "int list"
  critical_keywords :: "string list"
  success_keywords :: "string list"
  alert_email :: "string option"
  smtp_server :: string
  smtp_port :: int

definition default_config :: config where
  "default_config =
     \<lparr>timeout = 10, retry_attempts = 3, retry_delay = 2,
      expected_status_codes = [200, 201, 202, 204],
      critical_keywords = [''error'', ''exception'', ''down'', ''maintenance''],
      success_keywords = [''success'', ''ok'', ''running'', ''healthy''],
      alert_email = None, smtp_server = ''localhost'', smtp_port = 587\<rparr>"

text \<open>
  One element of \<open>applications\<close>: the keyword arguments of \<open>check_application\<close>. An absent
  key is \<open>None\<close> and takes the default of the signature
  \<open>check_application(self, url, name=None, method='GET', headers=None, data=None)\<close>.
\<close>

record application =
  app_url :: string
  app_name :: "string option"
  app_method :: "string option"
  app_headers :: "(string \<times> string) list option"
  app_data :: "string option"

section \<open>The outside world\<close>

text \<open>
  What reaches the \<open>requests\<close> library. \<open>requests.get(url, ...)\<close> is
  \<open>requests.request('get', url, ...)\<close>, and \<open>requests.post\<close> likewise.
\<close>

record http_request =
  verb :: string
  req_url :: string
  req_timeout :: rat
  req_headers :: "(string \<times> string) list option"
  req_data :: "string option"
  verify :: bool

text \<open>
  A call either returns a response (status code and body text) or raises a
  \<open>requests.exceptions.RequestException\<close>, of which \<open>str(e)\<close> is kept.
\<close>

datatype http_outcome = Response int string | RequestException string

datatype 'a file_read = FileNotFoundError | JSONDecodeError | Loaded 'a

text \<open>The keys a configuration file may override; a key it does not have is \<open>None\<close>.\<close>

record user_config =
  u_timeout :: "rat option"
  u_retry_attempts :: "int option"
  u_retry_delay :: "rat option"
  u_expected_status_codes :: "int list option"
  u_critical_keywords :: "string list option"
  u_success_keywords :: "string list option"
  u_alert_email :: "string option option"
  u_smtp_server :: "string option"
  u_smtp_port :: "int option"

text \<open>
  The environment of one run. HTTP calls are numbered from 0 in the order the process
  makes them: \<open>send w k req\<close> is what the \<open>k\<close>-th call returns or raises,
  \<open>elapsed_ms w k\<close> is \<open>round((time.time() - start_time) * 1000, 2)\<close> measured around it
  and \<open>now_iso w k\<close> is \<open>datetime.now().isoformat()\<close> read after it. \<open>read_config\<close> and
  \<open>read_applications\<close> are \<open>json.load\<close> on the named file, \<open>write_ok f\<close> says whether \<open>f\<close> can
  be opened for writing, and \<open>default_results_file\<close> is the name
  \<open>health_check_<date>_<time>.json\<close> that \<open>save_results\<close> makes up.
\<close>

record world =
  send :: "nat \<Rightarrow> http_request \<Rightarrow> http_outcome"
  elapsed_ms :: "nat \<Rightarrow> rat"
  now_iso :: "nat \<Rightarrow> string"
  read_config :: "string \<Rightarrow> user_config file_read"
  read_applications :: "string \<Rightarrow> application list file_read"
  write_ok :: "string \<Rightarrow> bool"
  default_results_file :: string

datatype effect =
    HttpCall http_request
  | Sleep rat
  | SaveResults string "check_result list"
  | SendAlert string nat "(string \<times> string) list"

text \<open>
  The checker object (\<open>self.config\<close>, \<open>self.results\<close>) together with the number of HTTP
  calls made so far and the log of effects on the outside world. Console output is
  not logged.
\<close>

record checker =
  config :: config
  results :: "check_result list"
  calls :: nat
  effects :: "effect list"

section \<open>check_application\<close>

definition build_request ::
  "config \<Rightarrow> string \<Rightarrow> string \<Rightarrow> (string \<times> string) list option \<Rightarrow> string option
     \<Rightarrow> http_request" where
  "build_request cfg u method headers data =
     (if upper method = ''GET'' then
        \<lparr>verb = ''get'', req_url = u, req_timeout = timeout cfg, req_headers = headers,
         req_data = None, verify = False\<rparr>
      else if upper method = ''POST'' then
        \<lparr>verb = ''post'', req_url = u, req_timeout = timeout cfg, req_headers = headers,
         req_data = data, verify = False\<rparr>
      else
        \<lparr>verb = method, req_url = u, req_timeout = timeout cfg, req_headers = headers,
         req_data = data, verify = False\<rparr>)"

text \<open>Lines 80 to 113: the dictionary built from a response.\<close>

definition response_result ::
  "config \<Rightarrow> string \<Rightarrow> string \<Rightarrow> int \<Rightarrow> string \<Rightarrow> rat \<Rightarrow> string \<Rightarrow> check_result" where
  "response_result cfg nm u code text response_time ts =
     (let status_ok = (code \<in> set (expected_status_codes cfg));
          content = lower text;
          has_critical_keyword = any_keyword_in (critical_keywords cfg) content;
          has_success_keyword = any_keyword_in (success_keywords cfg) content;
          st = (if status_ok \<and> \<not> has_critical_keyword
                then (if has_success_keyword then UP else UP)
                else DOWN)
      in \<lparr>name = nm, url = u, status = st, status_code = Some code,
          response_time_ms = Some response_time, timestamp = ts,
          content_analysis =
            Some \<lparr>has_critical_keywords = has_critical_keyword,
                  has_success_keywords = has_success_keyword\<rparr>,
          error = None\<rparr>)"

text \<open>Lines 128 to 136: the dictionary built when the last attempt raised.\<close>

definition exception_result :: "string \<Rightarrow> string \<Rightarrow> string \<Rightarrow> string \<Rightarrow> check_result" where
  "exception_result nm u e ts =
     \<lparr>name = nm, url = u, status = DOWN, status_code = None, response_time_ms = None,
      timestamp = ts, content_analysis = None, error = Some e\<rparr>"

text \<open>
  The loop \<open>for attempt in range(self.config['retry_attempts'])\<close>, over the attempts still
  to run. Falling out of the loop returns \<open>None\<close>.
\<close>

fun attempts ::
  "world \<Rightarrow> string \<Rightarrow> string \<Rightarrow> string \<Rightarrow> (string \<times> string) list option \<Rightarrow> string option
     \<Rightarrow> nat list \<Rightarrow> checker \<Rightarrow> check_result option \<times> checker" where
  "attempts w nm u method headers data [] s = (None, s)"
| "attempts w nm u method headers data (attempt # rest) s =
     (let req = build_request (config s) u method headers data;
          k = calls s;
          s1 = s\<lparr>calls := k + 1, effects := effects s @ [HttpCall req]\<rparr>
      in case send w k req of
           Response code text \<Rightarrow>
             (let result = response_result (config s) nm u code text (elapsed_ms w k) (now_iso w k)
              in (Some result, s1\<lparr>results := results s1 @ [result]\<rparr>))
         | RequestException e \<Rightarrow>
             if int attempt < retry_attempts (config s) - 1
             then attempts w nm u method headers data rest
                    (s1\<lparr>effects := effects s1 @ [Sleep (retry_delay (config s))]\<rparr>)
             else (let result = exception_result nm u e (now_iso w k)
                   in (Some result, s1\<lparr>results := results s1 @ [result]\<rparr>)))"

definition display_name :: "application \<Rightarrow> string" where
  "display_name app = (case app_name app of None \<Rightarrow> app_url app | Some n \<Rightarrow> n)"

definition method_of :: "application \<Rightarrow> string" where
  "method_of app = (case app_method app of None \<Rightarrow> ''GET'' | Some m \<Rightarrow> m)"

definition check_application :: "world \<Rightarrow> application \<Rightarrow> checker \<Rightarrow> check_result option \<times> checker" where
  "check_application w app s =
     attempts w (display_name app) (app_url app) (method_of app) (app_headers app) (app_data app)
       (py_range (retry_attempts (config s))) s"

section \<open>check_multiple_applications and generate_report\<close>

text \<open>What \<open>generate_report\<close> prints, and (\<open>all_up\<close>) what it returns.\<close>

record report =
  total_checks :: int
  up_checks :: int
  down_checks :: int
  success_rate :: rat
  response_times :: "(rat \<times> rat \<times> rat) option"
  down_apps :: "(string \<times> string) list"
  all_up :: bool

text \<open>
  The truth value of \<open>r['response_time_ms']\<close> in a condition: \<open>None\<close> and \<open>0.0\<close> are false.
\<close>

definition truthy_time :: "rat option \<Rightarrow> bool" where
  "truthy_time t = (case t of None \<Rightarrow> False | Some x \<Rightarrow> x \<noteq> 0)"

text \<open>
  \<open>[r['response_time_ms'] for r in self.results
     if r['status'] == 'UP' and r['response_time_ms']]\<close>
\<close>

definition up_times :: "check_result list \<Rightarrow> rat list" where
  "up_times rs =
     List.map_filter
       (\<lambda>r. if status r = UP \<and> truthy_time (response_time_ms r) then response_time_ms r else None)
       rs"

text \<open>
  \<open>(avg_time, min_time, max_time)\<close> of the non-empty list of times \<open>t # rest\<close>:
  \<open>sum(up_times) / len(up_times)\<close>, \<open>min(up_times)\<close> and \<open>max(up_times)\<close>.
\<close>

definition time_stats :: "rat \<Rightarrow> rat list \<Rightarrow> rat \<times> rat \<times> rat" where
  "time_stats t rest =
     (sum_list (t # rest) / of_nat (length (t # rest)), fold min rest t, fold max rest t)"

definition error_text :: "check_result \<Rightarrow> string" where
  "error_text r = (case error r of None \<Rightarrow> ''Unknown error'' | Some e \<Rightarrow> e)"

text \<open>
  \<open>generate_report\<close>: the division of line 163 raises \<open>ZeroDivisionError\<close> when
  \<open>self.results\<close> is empty, after the three counts have been printed.
\<close>

definition generate_report :: "checker \<Rightarrow> (py_error + report) \<times> checker" where
  "generate_report s =
     (let total = int (length (results s));
          up = int (length (filter (\<lambda>r. status r = UP) (results s)));
          down = total - up
      in if total = 0 then (Inl ZeroDivisionError, s)
         else
           (let rate = (of_int up / of_int total) * 100;
                ts = up_times (results s);
                times = (case ts of [] \<Rightarrow> None | t # rest \<Rightarrow> Some (time_stats t rest));
                downs = filter (\<lambda>r. status r = DOWN) (results s)
            in (Inr \<lparr>total_checks = total, up_checks = up, down_checks = down,
                      success_rate = rate, response_times = times,
                      down_apps = map (\<lambda>app. (name app, error_text app)) downs,
                      all_up = (up = total)\<rparr>, s)))"

text \<open>The loop \<open>for app in applications: self.check_application(**app)\<close>.\<close>

fun check_each :: "world \<Rightarrow> application list \<Rightarrow> checker \<Rightarrow> checker" where
  "check_each w [] s = s"
| "check_each w (app # apps) s = check_each w apps (snd (check_application w app s))"

definition check_multiple_applications ::
  "world \<Rightarrow> application list \<Rightarrow> checker \<Rightarrow> (py_error + report) \<times> checker" where
  "check_multiple_applications w applications s = generate_report (check_each w applications s)"

section \<open>Configuration, persistence, alerts and main\<close>





text \<open>\<open>save_results\<close>: \<open>open(filename, 'w')\<close> raises \<open>OSError\<close> when the file cannot be written.\<close>

definition save_results :: "world \<Rightarrow> string option \<Rightarrow> checker \<Rightarrow> (py_error + unit) \<times> checker" where
  "save_results w filename s =
     (let f = (case filename of None \<Rightarrow> default_results_file w | Some x \<Rightarrow> x)
      in if write_ok w f
         then (Inr (), s\<lparr>effects := effects s @ [SaveResults f (results s)]\<rparr>)
         else (Inl OSError, s))"








section \<open>Reference notions the properties are stated with\<close>




text \<open>The effects of \<open>n\<close> failed attempts, each followed by a sleep of \<open>d\<close> seconds.\<close>

definition failed_rounds :: "http_request \<Rightarrow> rat \<Rightarrow> nat \<Rightarrow> effect list" where
  "failed_rounds req d n = concat (replicate n [HttpCall req, Sleep d])"



definition request_of :: "config \<Rightarrow> application \<Rightarrow> http_request" where
  "request_of cfg app =
     build_request cfg (app_url app) (method_of app) (app_headers app) (app_data app)"

section \<open>Example inputs\<close>

text \<open>
  A world whose \<open>k\<close>-th HTTP call does \<open>f k\<close>, with a fixed clock, no files to read and a
  writable disk.
\<close>

definition world_of :: "(nat \<Rightarrow> http_outcome) \<Rightarrow> world" where
  "world_of f =
     \<lparr>send = (\<lambda>k req. f k), elapsed_ms = (\<lambda>k. 25 / 2),
      now_iso = (\<lambda>k. ''2024-01-01T00:00:00''),
      read_config = (\<lambda>f. FileNotFoundError),
      read_applications = (\<lambda>f. FileNotFoundError),
      write_ok = (\<lambda>f. True),
      default_results_file = ''health_check_20240101_000000.json''\<rparr>"

definition fresh_checker :: "config \<Rightarrow> checker" where
  "fresh_checker cfg = \<lparr>config = cfg, results = [], calls = 0, effects = []\<rparr>"

definition wisecow :: application where
  "wisecow =
     \<lparr>app_url = ''http://localhost:30007'', app_name = Some ''WiseCow App'',
      app_method = None, app_headers = None, app_data = None\<rparr>"


text \<open>A configuration whose only critical keyword is written in capitals.\<close>

definition shouting_config :: config where
  "shouting_config = default_config\<lparr>critical_keywords := [''ERROR'']\<rparr>"



text \<open>Results as \<open>check_application\<close> builds them, for the examples of the report.\<close>

definition up_result :: "string \<Rightarrow> rat \<Rightarrow> check_result" where
  "up_result nm t =
     \<lparr>name = nm, url = nm, status = UP, status_code = Some 200, response_time_ms = Some t,
      timestamp = ''2024-01-01T00:00:00'',
      content_analysis = Some \<lparr>has_critical_keywords = False, has_success_keywords = True\<rparr>,
      error = None\<rparr>"

definition down_result :: "string \<Rightarrow> string \<Rightarrow> check_result" where
  "down_result nm e =
     \<lparr>name = nm, url = nm, status = DOWN, status_code = None, response_time_ms = None,
      timestamp = ''2024-01-01T00:00:00'', content_analysis = None, error = Some e\<rparr>"

definition two_of_three :: checker where
  "two_of_three =
     (fresh_checker default_config)
       \<lparr>results := [up_result ''a'' 10, down_result ''b'' ''timed out'', up_result ''c'' 30]\<rparr>"

text \<open>
  A world in which the clock does not advance measurably during a call, so that the
  rounded elapsed time is \<open>0.0\<close>, and the checker after one check in it.
\<close>

definition instant_world :: world where
  "instant_world = (world_of (\<lambda>k. Response 200 ''ok''))\<lparr>elapsed_ms := (\<lambda>k. 0)\<rparr>"

definition instant_checker :: checker where
  "instant_checker = snd (check_application instant_world wisecow (fresh_checker default_config))"









section \<open>Facts about text\<close>

text \<open>\<open>str_contains\<close> is the substring relation.\<close>

lemma starts_with_iff: "starts_with k s \<longleftrightarrow> (\<exists>ss. s = k @ ss)"
  by (induction k s rule: starts_with.induct) auto

lemma str_contains_iff: "str_contains k s \<longleftrightarrow> (\<exists>ps ss. s = ps @ k @ ss)"
proof (induction s)
  case Nil
  then show ?case by auto
next
  case (Cons c cs)
  show ?case
  proof
    assume "str_contains k (c # cs)"
    then consider "starts_with k (c # cs)" | "str_contains k cs" by auto
    then show "\<exists>ps ss. c # cs = ps @ k @ ss"
    proof cases
      case 1
      then obtain ss where "c # cs = k @ ss" by (auto simp: starts_with_iff)
      then have "c # cs = [] @ k @ ss" by simp
      then show ?thesis by blast
    next
      case 2
      then obtain ps ss where "cs = ps @ k @ ss" using Cons.IH by auto
      then have "c # cs = (c # ps) @ k @ ss" by simp
      then show ?thesis by blast
    qed
  next
    assume "\<exists>ps ss. c # cs = ps @ k @ ss"
    then obtain ps ss where eq: "c # cs = ps @ k @ ss" by blast
    show "str_contains k (c # cs)"
    proof (cases ps)
      case Nil
      with eq have "starts_with k (c # cs)" by (auto simp: starts_with_iff)
      then show ?thesis by simp
    next
      case (Cons p ps')
      with eq have "cs = ps' @ k @ ss" by simp
      then have "str_contains k cs" using Cons.IH by blast
      then show ?thesis by simp
    qed
  qed
qed

lemma lower_char_idem: "lower_char (lower_char c) = lower_char c"
  by (simp add: lower_char_def ascii_uppercase_def ascii_lowercase_def)

lemma lower_idem: "lower (lower s) = lower s"
  by (simp add: lower_def lower_char_idem)


section \<open>Facts about the retry loop\<close>

text \<open>One turn of the loop, by what the HTTP call does.\<close>

lemma attempts_response:
  assumes "send w (calls s) (build_request (config s) u m h d) = Response code body"
  shows "attempts w nm u m h d (a # rest) s =
           (Some (response_result (config s) nm u code body (elapsed_ms w (calls s)) (now_iso w (calls s))),
            s\<lparr>calls := calls s + 1,
              effects := effects s @ [HttpCall (build_request (config s) u m h d)],
              results := results s @
                [response_result (config s) nm u code body (elapsed_ms w (calls s)) (now_iso w (calls s))]\<rparr>)"
  using assms by (simp add: Let_def)

lemma attempts_retry:
  assumes "send w (calls s) (build_request (config s) u m h d) = RequestException e"
    and "int a < retry_attempts (config s) - 1"
  shows "attempts w nm u m h d (a # rest) s =
           attempts w nm u m h d rest
             (s\<lparr>calls := calls s + 1,
                effects := effects s @
                  [HttpCall (build_request (config s) u m h d), Sleep (retry_delay (config s))]\<rparr>)"
  using assms by (simp add: Let_def)

lemma attempts_give_up:
  assumes "send w (calls s) (build_request (config s) u m h d) = RequestException e"
    and "\<not> int a < retry_attempts (config s) - 1"
  shows "attempts w nm u m h d (a # rest) s =
           (Some (exception_result nm u e (now_iso w (calls s))),
            s\<lparr>calls := calls s + 1,
              effects := effects s @ [HttpCall (build_request (config s) u m h d)],
              results := results s @ [exception_result nm u e (now_iso w (calls s))]\<rparr>)"
  using assms by (simp add: Let_def)

lemma attempts_Some:
  assumes "attempts w nm u m h d as s = (Some r, s')"
  shows "results s' = results s @ [r] \<and> config s' = config s \<and> name r = nm \<and> url r = u
         \<and> (error r = None) \<noteq> (content_analysis r = None)"
  using assms
proof (induction as arbitrary: s)
  case Nil
  then show ?case by simp
next
  case (Cons a as)
  let ?req = "build_request (config s) u m h d"
  show ?case
  proof (cases "send w (calls s) ?req")
    case (Response code body)
    from Cons.prems show ?thesis
      unfolding attempts_response[OF Response]
      by (auto simp: response_result_def Let_def)
  next
    case (RequestException e)
    show ?thesis
    proof (cases "int a < retry_attempts (config s) - 1")
      case True
      from Cons.prems have "attempts w nm u m h d as
             (s\<lparr>calls := calls s + 1,
                effects := effects s @ [HttpCall ?req, Sleep (retry_delay (config s))]\<rparr>) = (Some r, s')"
        unfolding attempts_retry[OF RequestException True] .
      from Cons.IH[OF this] show ?thesis by simp
    next
      case False
      from Cons.prems show ?thesis
        unfolding attempts_give_up[OF RequestException False]
        by (auto simp: exception_result_def)
    qed
  qed
qed

text \<open>\<open>k\<close> failed attempts that are not the last one: the loop sleeps after each and goes on.\<close>

lemma failed_rounds_Suc:
  "failed_rounds req dl (Suc k) = [HttpCall req, Sleep dl] @ failed_rounds req dl k"
  by (simp add: failed_rounds_def)

lemma attempts_failures:
  assumes "\<forall>j<k. \<exists>e. send w (calls s + j) (build_request (config s) u m h d) = RequestException e"
    and "i + k \<le> n"
    and "int (i + k) \<le> retry_attempts (config s) - 1"
  shows "attempts w nm u m h d [i ..< n] s =
           attempts w nm u m h d [i + k ..< n]
             (s\<lparr>calls := calls s + k,
                effects := effects s @
                  failed_rounds (build_request (config s) u m h d) (retry_delay (config s)) k\<rparr>)"
  using assms
proof (induction k arbitrary: i s)
  case 0
  show ?case by (simp add: failed_rounds_def)
next
  case (Suc k)
  let ?req = "build_request (config s) u m h d"
  let ?s1 = "s\<lparr>calls := calls s + 1,
                effects := effects s @ [HttpCall ?req, Sleep (retry_delay (config s))]\<rparr>"
  from Suc.prems(1) obtain e where e: "send w (calls s) ?req = RequestException e"
    by force
  have lt: "int i < retry_attempts (config s) - 1" using Suc.prems(3) by simp
  have up: "[i ..< n] = i # [Suc i ..< n]" using Suc.prems(2) by (simp add: upt_conv_Cons)
  have step: "attempts w nm u m h d [i ..< n] s = attempts w nm u m h d [Suc i ..< n] ?s1"
    unfolding up by (rule attempts_retry[OF e lt])
  have fails: "\<forall>j<k. \<exists>e. send w (calls ?s1 + j) (build_request (config ?s1) u m h d) = RequestException e"
  proof (intro allI impI)
    fix j assume "j < k"
    then have "Suc j < Suc k" by simp
    with Suc.prems(1) obtain e' where "send w (calls s + Suc j) ?req = RequestException e'"
      by blast
    then show "\<exists>e. send w (calls ?s1 + j) (build_request (config ?s1) u m h d) = RequestException e"
      by simp
  qed
  have "attempts w nm u m h d [Suc i ..< n] ?s1 =
          attempts w nm u m h d [Suc i + k ..< n]
            (?s1\<lparr>calls := calls ?s1 + k,
                 effects := effects ?s1 @
                   failed_rounds (build_request (config ?s1) u m h d) (retry_delay (config ?s1)) k\<rparr>)"
    using Suc.prems(2,3) by (intro Suc.IH[OF fails]) simp_all
  then show ?case
    unfolding step by (simp add: failed_rounds_Suc)
qed

text \<open>The two ways \<open>check_application\<close> ends when at least one attempt is made.\<close>

lemma check_application_response:
  assumes "int k < retry_attempts (config s)"
    and "\<forall>j<k. \<exists>e. send w (calls s + j) (request_of (config s) app) = RequestException e"
    and "send w (calls s + k) (request_of (config s) app) = Response code body"
  shows "check_application w app s =
           (Some (response_result (config s) (display_name app) (app_url app) code body
                    (elapsed_ms w (calls s + k)) (now_iso w (calls s + k))),
            s\<lparr>calls := calls s + k + 1,
              effects := effects s @
                failed_rounds (request_of (config s) app) (retry_delay (config s)) k @
                [HttpCall (request_of (config s) app)],
              results := results s @
                [response_result (config s) (display_name app) (app_url app) code body
                   (elapsed_ms w (calls s + k)) (now_iso w (calls s + k))]\<rparr>)"
proof -
  let ?n = "nat (retry_attempts (config s))"
  let ?req = "build_request (config s) (app_url app) (method_of app) (app_headers app) (app_data app)"
  let ?s1 = "s\<lparr>calls := calls s + k,
               effects := effects s @ failed_rounds ?req (retry_delay (config s)) k\<rparr>"
  have kn: "k < ?n" using assms(1) by linarith
  have skip: "attempts w (display_name app) (app_url app) (method_of app) (app_headers app)
                (app_data app) [0 ..< ?n] s =
              attempts w (display_name app) (app_url app) (method_of app) (app_headers app)
                (app_data app) [0 + k ..< ?n] ?s1"
    using assms(1,2) kn
    by (intro attempts_failures) (simp_all add: request_of_def)
  have up: "[0 + k ..< ?n] = k # [Suc k ..< ?n]" using kn by (simp add: upt_conv_Cons)
  have resp: "send w (calls ?s1) (build_request (config ?s1) (app_url app) (method_of app)
                (app_headers app) (app_data app)) = Response code body"
    using assms(3) by (simp add: request_of_def)
  show ?thesis
    unfolding check_application_def py_range_def skip up attempts_response[OF resp]
    by (simp add: request_of_def)
qed








text \<open>When the list of attempts ends with the last permitted one, the loop returns a result.\<close>

lemma attempts_returns:
  assumes "as \<noteq> []" and "\<not> int (last as) < retry_attempts (config s) - 1"
  shows "\<exists>r s'. attempts w nm u m h d as s = (Some r, s')"
  using assms
proof (induction as arbitrary: s)
  case Nil
  then show ?case by simp
next
  case (Cons a as)
  let ?req = "build_request (config s) u m h d"
  show ?case
  proof (cases "send w (calls s) ?req")
    case (Response code body)
    show ?thesis unfolding attempts_response[OF Response] by blast
  next
    case (RequestException e)
    show ?thesis
    proof (cases "int a < retry_attempts (config s) - 1")
      case True
      let ?s1 = "s\<lparr>calls := calls s + 1,
                effects := effects s @ [HttpCall ?req, Sleep (retry_delay (config s))]\<rparr>"
      have ne: "as \<noteq> []" using True Cons.prems(2) by auto
      then have "\<not> int (last as) < retry_attempts (config ?s1) - 1"
        using Cons.prems(2) by simp
      from Cons.IH[OF ne this] show ?thesis
        unfolding attempts_retry[OF RequestException True] .
    next
      case False
      show ?thesis unfolding attempts_give_up[OF RequestException False] by blast
    qed
  qed
qed

lemma check_application_returns:
  assumes "1 \<le> retry_attempts (config s)"
  shows "\<exists>r s'. check_application w app s = (Some r, s') \<and> results s' = results s @ [r]
           \<and> config s' = config s \<and> name r = display_name app \<and> url r = app_url app"
proof -
  let ?n = "nat (retry_attempts (config s))"
  have n1: "1 \<le> ?n" using assms by linarith
  then have ne: "[0 ..< ?n] \<noteq> []" by simp
  have "last [0 ..< ?n] = ?n - 1" using n1 by simp
  then have "\<not> int (last [0 ..< ?n]) < retry_attempts (config s) - 1"
    using assms by simp
  from attempts_returns[OF ne this]
  obtain r s' where eq: "check_application w app s = (Some r, s')"
    unfolding check_application_def py_range_def by blast
  then have "attempts w (display_name app) (app_url app) (method_of app) (app_headers app)
     (app_data app) (py_range (retry_attempts (config s))) s = (Some r, s')"
    by (simp add: check_application_def)
  from attempts_Some[OF this] eq show ?thesis by blast
qed

lemma check_application_no_attempt:
  assumes "retry_attempts (config s) \<le> 0"
  shows "check_application w app s = (None, s)"
  using assms by (simp add: check_application_def py_range_def)

lemma check_each_no_attempt:
  assumes "retry_attempts (config s) \<le> 0"
  shows "check_each w apps s = s"
  using assms by (induction apps) (simp_all add: check_application_no_attempt)

lemma generate_report_state: "snd (generate_report s) = s"
  by (simp add: generate_report_def Let_def)


section \<open>Properties of check_application\<close>












text \<open>
  Claim C4. A result returned by \<open>check_application\<close> carries exactly one of \<open>error\<close> and
  \<open>content_analysis\<close>: with an \<open>error\<close> there is no \<open>content_analysis\<close>, and with a
  \<open>content_analysis\<close> there is no \<open>error\<close>. The returned result is the one appended to
  \<open>self.results\<close>.
\<close>

theorem error_xor_content_analysis:
  assumes "check_application w app s = (Some r, s')"
  shows "((error r \<noteq> None \<and> content_analysis r = None)
          \<or> (error r = None \<and> content_analysis r \<noteq> None))
       \<and> results s' = results s @ [r]"
proof -
  from assms have "attempts w (display_name app) (app_url app) (method_of app) (app_headers app)
     (app_data app) (py_range (retry_attempts (config s))) s = (Some r, s')"
    by (simp add: check_application_def)
  from attempts_Some[OF this] show ?thesis by auto
qed

theorem error_xor_content_analysis_witness:
  "\<exists>r s'.
     check_application (world_of (\<lambda>k. Response 200 ''All systems running'')) wisecow
       (fresh_checker default_config) = (Some r, s')
   \<and> ((error r \<noteq> None \<and> content_analysis r = None)
        \<or> (error r = None \<and> content_analysis r \<noteq> None))
   \<and> results s' = results (fresh_checker default_config) @ [r]"
proof -
  let ?w = "world_of (\<lambda>k. Response 200 ''All systems running'')"
  let ?s = "fresh_checker default_config"
  have "1 \<le> retry_attempts (config ?s)"
    by (simp add: fresh_checker_def default_config_def)
  from check_application_returns[OF this, of ?w wisecow]
  obtain r s' where run: "check_application ?w wisecow ?s = (Some r, s')" by blast
  from error_xor_content_analysis[OF run] run show ?thesis by blast
qed

section \<open>Properties of check_multiple_applications\<close>



text \<open>
  Claim C10. When \<open>retry_attempts\<close> is 0 or negative, \<open>check_application\<close> makes no HTTP
  call, appends nothing to \<open>self.results\<close> and returns \<open>None\<close>: the checker is left as it
  was. So \<open>check_multiple_applications\<close> then produces no result for any application of a
  non-empty list, and on a checker without results it ends in the
  \<open>ZeroDivisionError\<close> of \<open>generate_report\<close>. Nothing checks the value of
  \<open>retry_attempts\<close> before the loop.
\<close>

theorem no_attempt_without_retries:
  assumes "retry_attempts (config s) \<le> 0"
  shows "check_application w app s = (None, s)
       \<and> check_each w apps s = s
       \<and> (apps \<noteq> [] \<longrightarrow>
            length (results (check_each w apps s)) \<noteq> length (results s) + length apps)
       \<and> (results s = [] \<longrightarrow>
            check_multiple_applications w apps s = (Inl ZeroDivisionError, s))"
  using assms
  by (simp add: check_application_no_attempt check_each_no_attempt
        check_multiple_applications_def generate_report_def)

theorem no_attempt_without_retries_witness:
  "retry_attempts (config (fresh_checker (default_config\<lparr>retry_attempts := 0\<rparr>))) \<le> 0
   \<and> [wisecow] \<noteq> []
   \<and> results (fresh_checker (default_config\<lparr>retry_attempts := 0\<rparr>)) = []
   \<and> check_application (world_of (\<lambda>k. Response 200 ''ok'')) wisecow
         (fresh_checker (default_config\<lparr>retry_attempts := 0\<rparr>))
       = (None, fresh_checker (default_config\<lparr>retry_attempts := 0\<rparr>))
   \<and> length (results (check_each (world_of (\<lambda>k. Response 200 ''ok'')) [wisecow]
         (fresh_checker (default_config\<lparr>retry_attempts := 0\<rparr>))))
       \<noteq> length (results (fresh_checker (default_config\<lparr>retry_attempts := 0\<rparr>)))
           + length [wisecow]
   \<and> check_multiple_applications (world_of (\<lambda>k. Response 200 ''ok'')) [wisecow]
         (fresh_checker (default_config\<lparr>retry_attempts := 0\<rparr>))
       = (Inl ZeroDivisionError, fresh_checker (default_config\<lparr>retry_attempts := 0\<rparr>))"
proof -
  let ?w = "world_of (\<lambda>k. Response 200 ''ok'')"
  let ?s = "fresh_checker (default_config\<lparr>retry_attempts := 0\<rparr>)"
  have h: "retry_attempts (config ?s) \<le> 0"
    by (simp add: fresh_checker_def)
  have e: "results ?s = []"
    by (simp add: fresh_checker_def)
  have ne: "[wisecow] \<noteq> []"
    by simp
  note t = no_attempt_without_retries[OF h, of ?w wisecow "[wisecow]"]
  from t have a: "check_application ?w wisecow ?s = (None, ?s)"
    by (rule conjunct1)
  from t have c: "[wisecow] \<noteq> [] \<longrightarrow>
      length (results (check_each ?w [wisecow] ?s)) \<noteq> length (results ?s) + length [wisecow]"
    by (elim conjE)
  from t have d: "results ?s = [] \<longrightarrow>
      check_multiple_applications ?w [wisecow] ?s = (Inl ZeroDivisionError, ?s)"
    by (elim conjE)
  show ?thesis
    using h ne e a c[rule_format, OF ne] d[rule_format, OF e] by (intro conjI)
qed

section \<open>Properties of generate_report\<close>

lemma status_not_UP: "status r \<noteq> UP \<longleftrightarrow> status r = DOWN"
  by (cases "status r") simp_all

lemma count_down:
  "int (length rs) - int (length (filter (\<lambda>r. status r = UP) rs))
     = int (length (filter (\<lambda>r. status r = DOWN) rs))"
proof -
  have "length (filter (\<lambda>r. status r = UP) rs) + length (filter (\<lambda>r. \<not> status r = UP) rs)
          = length rs"
    by (rule sum_length_filter_compl)
  then show ?thesis by (simp add: status_not_UP)
qed

lemma all_filtered: "length (filter P xs) = length xs \<longleftrightarrow> list_all P xs"
proof (induction xs)
  case Nil
  show ?case by simp
next
  case (Cons x xs)
  show ?case
  proof (cases "P x")
    case True
    then show ?thesis using Cons.IH by simp
  next
    case False
    have "length (filter P xs) < Suc (length xs)"
      using length_filter_le[of P xs] by (simp only: less_Suc_eq_le)
    then have "length (filter P (x # xs)) \<noteq> length (x # xs)"
      using False by (simp del: length_filter_le)
    then show ?thesis using False by simp
  qed
qed

lemma generate_report_empty:
  assumes "results s = []"
  shows "generate_report s = (Inl ZeroDivisionError, s)"
  using assms by (simp add: generate_report_def)

lemma generate_report_nonempty:
  assumes "results s \<noteq> []"
  shows "generate_report s =
     (Inr \<lparr>total_checks = int (length (results s)),
           up_checks = int (length (filter (\<lambda>r. status r = UP) (results s))),
           down_checks = int (length (results s))
                         - int (length (filter (\<lambda>r. status r = UP) (results s))),
           success_rate = of_int (int (length (filter (\<lambda>r. status r = UP) (results s))))
                          / of_int (int (length (results s))) * 100,
           response_times = (case up_times (results s) of [] \<Rightarrow> None
                             | t # rest \<Rightarrow> Some (time_stats t rest)),
           down_apps = map (\<lambda>app. (name app, error_text app))
                         (filter (\<lambda>r. status r = DOWN) (results s)),
           all_up = (int (length (filter (\<lambda>r. status r = UP) (results s)))
                     = int (length (results s)))\<rparr>, s)"
  using assms by (simp add: generate_report_def Let_def)

text \<open>Which times enter the statistics, and what the statistics are.\<close>

lemma up_times_filter:
  "up_times rs =
     map (\<lambda>r. the (response_time_ms r))
       (filter (\<lambda>r. status r = UP \<and> response_time_ms r \<noteq> None \<and> response_time_ms r \<noteq> Some 0) rs)"
  by (induction rs)
     (auto simp: up_times_def List.map_filter_def truthy_time_def split: option.splits)

lemma time_stats_Min_Max:
  "time_stats t rest =
     (sum_list (t # rest) / of_nat (length (t # rest)), Min (set (t # rest)), Max (set (t # rest)))"
  by (simp only: time_stats_def Min.set_eq_fold Max.set_eq_fold)

text \<open>
  Claim C5. For a non-empty \<open>self.results\<close>, \<open>generate_report\<close> reports \<open>total_checks\<close>, the
  length of the list; \<open>up_checks\<close>, the number of results with status \<open>UP\<close>; \<open>down_checks\<close>,
  their difference (which is the number of results with status \<open>DOWN\<close>); and the success
  rate \<open>up_checks / total_checks * 100\<close>, a number from 0 to 100 that for 2 \<open>UP\<close> out of 3 is
  within 0.05 of 66.7, the value printed with one decimal. It returns whether
  \<open>up_checks\<close> equals \<open>total_checks\<close>, that is whether every result is \<open>UP\<close>.
\<close>

theorem report_counts:
  assumes "results s \<noteq> []"
  shows "\<exists>rep.
           generate_report s = (Inr rep, s)
         \<and> total_checks rep = int (length (results s))
         \<and> up_checks rep = int (length (filter (\<lambda>r. status r = UP) (results s)))
         \<and> down_checks rep = total_checks rep - up_checks rep
         \<and> down_checks rep = int (length (filter (\<lambda>r. status r = DOWN) (results s)))
         \<and> success_rate rep = of_int (up_checks rep) / of_int (total_checks rep) * 100
         \<and> 0 \<le> success_rate rep \<and> success_rate rep \<le> 100
         \<and> (up_checks rep = 2 \<and> total_checks rep = 3 \<longrightarrow>
               \<bar>success_rate rep - 667 / 10\<bar> < 1 / 20)
         \<and> all_up rep = (up_checks rep = total_checks rep)
         \<and> all_up rep = list_all (\<lambda>r. status r = UP) (results s)"
proof -
  let ?total = "int (length (results s))"
  let ?up = "int (length (filter (\<lambda>r. status r = UP) (results s)))"
  let ?rep = "\<lparr>total_checks = ?total, up_checks = ?up, down_checks = ?total - ?up,
           success_rate = of_int ?up / of_int ?total * 100,
           response_times = (case up_times (results s) of [] \<Rightarrow> None
                             | t # rest \<Rightarrow> Some (time_stats t rest)),
           down_apps = map (\<lambda>app. (name app, error_text app))
                         (filter (\<lambda>r. status r = DOWN) (results s)),
           all_up = (?up = ?total)\<rparr>"
  have run: "generate_report s = (Inr ?rep, s)"
    by (rule generate_report_nonempty[OF assms])
  have pos: "0 < ?total" using assms by simp
  have le: "?up \<le> ?total" by simp
  have up0: "0 \<le> ?up" by simp
  have rate0: "0 \<le> success_rate ?rep"
    using pos up0 by simp
  have "(of_int ?up :: rat) \<le> of_int ?total" using le by (simp only: of_int_le_iff)
  then have "(of_int ?up :: rat) / of_int ?total \<le> 1" using pos by (simp add: divide_le_eq_1)
  then have "(of_int ?up :: rat) / of_int ?total * 100 \<le> 1 * 100"
    by (intro mult_right_mono) simp_all
  then have rate100: "success_rate ?rep \<le> 100" by simp
  have example: "up_checks ?rep = 2 \<and> total_checks ?rep = 3 \<longrightarrow>
               \<bar>success_rate ?rep - 667 / 10\<bar> < 1 / 20"
    by simp
  have downs: "down_checks ?rep = int (length (filter (\<lambda>r. status r = DOWN) (results s)))"
    using count_down[of "results s"] by simp
  have allup: "all_up ?rep = list_all (\<lambda>r. status r = UP) (results s)"
    using all_filtered[of "\<lambda>r. status r = UP" "results s"] by simp
  show ?thesis
    using run rate0 rate100 example downs allup
    by (intro exI[of _ ?rep] conjI) simp_all
qed

theorem report_counts_witness:
  "results two_of_three \<noteq> []
   \<and> (\<exists>rep.
         generate_report two_of_three = (Inr rep, two_of_three)
       \<and> total_checks rep = 3 \<and> up_checks rep = 2 \<and> down_checks rep = 1
       \<and> \<bar>success_rate rep - 667 / 10\<bar> < 1 / 20
       \<and> all_up rep = False)"
proof -
  have res: "results two_of_three =
      [up_result ''a'' 10, down_result ''b'' ''timed out'', up_result ''c'' 30]"
    by (simp add: two_of_three_def)
  have ne: "results two_of_three \<noteq> []"
    by (simp add: res)
  have st: "status (up_result ''a'' 10) = UP" "status (down_result ''b'' ''timed out'') = DOWN"
    "status (up_result ''c'' 30) = UP"
    by (simp_all add: up_result_def down_result_def)
  from report_counts[OF ne]
  obtain rep where run: "generate_report two_of_three = (Inr rep, two_of_three)"
    and total: "total_checks rep = int (length (results two_of_three))"
    and up: "up_checks rep = int (length (filter (\<lambda>r. status r = UP) (results two_of_three)))"
    and down: "down_checks rep = total_checks rep - up_checks rep"
    and example: "up_checks rep = 2 \<and> total_checks rep = 3 \<longrightarrow>
               \<bar>success_rate rep - 667 / 10\<bar> < 1 / 20"
    and allup: "all_up rep = (up_checks rep = total_checks rep)"
    by blast
  have t3: "total_checks rep = 3" using total by (simp add: res)
  have u2: "up_checks rep = 2" using up by (simp add: res st)
  have d1: "down_checks rep = 1" using down t3 u2 by simp
  have rate: "\<bar>success_rate rep - 667 / 10\<bar> < 1 / 20" using example t3 u2 by blast
  have no: "all_up rep = False" using allup t3 u2 by simp
  have "\<exists>rep.
         generate_report two_of_three = (Inr rep, two_of_three)
       \<and> total_checks rep = 3 \<and> up_checks rep = 2 \<and> down_checks rep = 1
       \<and> \<bar>success_rate rep - 667 / 10\<bar> < 1 / 20
       \<and> all_up rep = False"
    using run t3 u2 d1 rate no by (intro exI[of _ rep] conjI)
  with ne show ?thesis by (rule conjI)
qed

text \<open>
  Claim C7. \<open>generate_report\<close> divides by the number of results without a guard: it ends
  in \<open>ZeroDivisionError\<close> exactly when \<open>self.results\<close> is empty, and produces its report
  exactly when \<open>self.results\<close> is not empty, so with a non-empty list the error cannot
  happen. Either way the checker is left as it was.
\<close>

theorem report_division_by_zero:
  "(fst (generate_report s) = Inl ZeroDivisionError) = (results s = [])
   \<and> (\<exists>rep. fst (generate_report s) = Inr rep) = (results s \<noteq> [])
   \<and> snd (generate_report s) = s"
proof (cases "results s = []")
  case True
  then show ?thesis by (simp add: generate_report_empty)
next
  case False
  then show ?thesis by (simp add: generate_report_nonempty)
qed


text \<open>
  Claim C9. \<open>generate_report\<close> leaves the checker, and so \<open>self.results\<close>, unchanged; run a
  second time it gives the same report as the first time; and two checkers with the
  same \<open>self.results\<close> get the same report, whatever else differs between them.
\<close>

theorem report_is_deterministic:
  "snd (generate_report s) = s
   \<and> generate_report (snd (generate_report s)) = generate_report s
   \<and> (results s2 = results s \<longrightarrow> fst (generate_report s2) = fst (generate_report s))"
proof -
  have same: "snd (generate_report s) = s"
    by (rule generate_report_state)
  have "results s2 = results s \<Longrightarrow> fst (generate_report s2) = fst (generate_report s)"
    by (simp add: generate_report_def Let_def)
  then show ?thesis by (simp add: same)
qed

theorem report_is_deterministic_witness:
  "results (two_of_three\<lparr>config := shouting_config, calls := 7\<rparr>) = results two_of_three
   \<and> fst (generate_report (two_of_three\<lparr>config := shouting_config, calls := 7\<rparr>))
       = fst (generate_report two_of_three)
   \<and> snd (generate_report two_of_three) = two_of_three
   \<and> generate_report (snd (generate_report two_of_three)) = generate_report two_of_three"
proof -
  let ?s2 = "two_of_three\<lparr>config := shouting_config, calls := 7\<rparr>"
  have h: "results ?s2 = results two_of_three" by simp
  note t = report_is_deterministic[of two_of_three ?s2]
  from t have a: "snd (generate_report two_of_three) = two_of_three"
    by (rule conjunct1)
  from t have b: "generate_report (snd (generate_report two_of_three)) = generate_report two_of_three"
    by (elim conjE)
  from t have c: "results ?s2 = results two_of_three \<longrightarrow>
      fst (generate_report ?s2) = fst (generate_report two_of_three)"
    by (elim conjE)
  show ?thesis using h c[rule_format, OF h] a b by (intro conjI)
qed

lemma instant_checker_results:
  "results instant_checker =
     [\<lparr>name = ''WiseCow App'', url = ''http://localhost:30007'', status = UP,
       status_code = Some 200, response_time_ms = Some 0,
       timestamp = ''2024-01-01T00:00:00'',
       content_analysis = Some \<lparr>has_critical_keywords = False, has_success_keywords = True\<rparr>,
       error = None\<rparr>]"
proof -
  let ?s = "fresh_checker default_config"
  have h1: "int 0 < retry_attempts (config ?s)"
    by (simp add: fresh_checker_def default_config_def)
  have h2: "\<forall>j<0. \<exists>e. send instant_world (calls ?s + j) (request_of (config ?s) wisecow)
              = RequestException e"
    by simp
  have h3: "send instant_world (calls ?s + 0) (request_of (config ?s) wisecow) = Response 200 ''ok''"
    by (simp add: instant_world_def world_of_def)
  show ?thesis
    unfolding instant_checker_def check_application_response[OF h1 h2 h3]
    by (simp add: fresh_checker_def default_config_def response_result_def Let_def
          any_keyword_in_def display_name_def wisecow_def instant_world_def world_of_def
          lower_def lower_char_def ascii_uppercase_def ascii_lowercase_def)
qed

text \<open>
  Claim C8 on the check of a target that answers within a clock tick: the result is \<open>UP\<close>
  and its \<open>response_time_ms\<close> is present with the value \<open>0.0\<close>, but the condition
  \<open>r['response_time_ms']\<close> of line 166 is false for \<open>0.0\<close>, so the time is left out of
  \<open>up_times\<close> and the report has no response-time statistics.
\<close>

theorem zero_response_time_left_out:
  "map status (results instant_checker) = [UP]
   \<and> map response_time_ms (results instant_checker) = [Some 0]
   \<and> up_times (results instant_checker) = []
   \<and> map_sum id response_times (fst (generate_report instant_checker)) = Inr None"
  by (simp add: instant_checker_results up_times_def List.map_filter_def truthy_time_def
        generate_report_def Let_def)

section \<open>Properties of main\<close>


lemma save_results_results:
  "results (snd (save_results w f s)) = results s"
  by (simp add: save_results_def Let_def)






















end
